theory Spec2Isabelle
  imports Main "HOL-Library.AList" "HOL-Library.Multiset"
begin

section \<open>Data model\<close>

text \<open>
  The policy adapter (\<^verbatim>\<open>adapter.go\<close>) and the model store are thin layers over the
  Cloud Datastore client. The Go structs become records, Go strings are byte strings
  (\<^typ>\<open>string\<close>), and the empty Go string is \<^term>\<open>[] :: string\<close>.
\<close>

definition casbinKind :: string where
  "casbinKind = ''casbin''"

record CasbinRule =
  PType :: string
  V0 :: string
  V1 :: string
  V2 :: string
  V3 :: string
  V4 :: string
  V5 :: string

definition row_fields :: "CasbinRule \<Rightarrow> string list" where
  \<comment> \<open>the positional fields of a row, \<open>v0\<close> first\<close>
  "row_fields r = [V0 r, V1 r, V2 r, V3 r, V4 r, V5 r]"

record CasbinModelConf =
  Text :: string

record Config =
  Kind :: string
  Namespace :: string

text \<open>The adapter struct; its \<^verbatim>\<open>db\<close> handle is passed to every operation as the store state.\<close>

record adapter =
  kind :: string
  namespace :: string

text \<open>
  Go errors and Go panics are kept apart: an \<open>error\<close> is a value the function returns, a
  \<open>panic\<close> means the function does not return at all.
\<close>

datatype store_error = ErrNoSuchEntity | ErrFieldMismatch | ErrOther nat

datatype error =
    Datastore store_error
  | ReadFileError nat
  | ValidationError nat
  | InvalidEntity
  | NotImplemented

datatype panic = SliceBoundsOutOfRange | NilPointerDereference | IndexOutOfRange

text \<open>
  The casbin policy model: \<^verbatim>\<open>map[string]map[string]*Assertion\<close>. A Go map is kept as an
  association list read with \<^const>\<open>map_of\<close>; the order of the list is the order in which
  \<^verbatim>\<open>range\<close> visits the entries, which Go leaves unspecified, so a statement for every list
  is a statement for every iteration order. An absent key and a nil \<^verbatim>\<open>*Assertion\<close> behave
  alike in the code below (both are a nil pointer at \<^verbatim>\<open>model[sec][key]\<close>).
\<close>

record Assertion =
  Policy :: "string list list"

type_synonym AssertionMap = "(string \<times> Assertion) list"
type_synonym Model = "(string \<times> AssertionMap) list"

definition index_model :: "Model \<Rightarrow> string \<Rightarrow> AssertionMap" where
  \<comment> \<open>\<^verbatim>\<open>model[sec]\<close>: the nil map when the section is absent\<close>
  "index_model model sec = (case map_of model sec of None \<Rightarrow> [] | Some am \<Rightarrow> am)"

definition policy_of :: "Model \<Rightarrow> string \<Rightarrow> string \<Rightarrow> string list list option" where
  \<comment> \<open>the tuples at \<^verbatim>\<open>model[sec][key].Policy\<close>, \<open>None\<close> when the assertion is absent\<close>
  "policy_of model sec key = map_option Policy (map_of (index_model model sec) key)"

section \<open>The datastore client\<close>

text \<open>
  The client library is not part of the repository, so the store is an explicit state:
  the rule entities and the model documents with their keys, together with the behaviour
  of the environment that the code cannot control: the order in which a query returns
  its results (\<open>scan\<close>) and which calls fail (\<open>*_fails\<close>). Entities are kept per Go type,
  and one kind may hold both: the model store and the adapter share the default kind.
\<close>

datatype KeyID = Incomplete | IntID nat | NameID string

datatype Key = Key (key_kind: string) (key_namespace: string) (key_id: KeyID)

definition IncompleteKey :: "string \<Rightarrow> Key" where
  "IncompleteKey k = Key k [] Incomplete"

definition NameKey :: "string \<Rightarrow> string \<Rightarrow> Key" where
  "NameKey k name = Key k [] (NameID name)"

definition set_Namespace :: "Key \<Rightarrow> string \<Rightarrow> Key" where
  \<comment> \<open>\<^verbatim>\<open>key.Namespace = ns\<close>\<close>
  "set_Namespace k ns = Key (key_kind k) ns (key_id k)"

record Client =
  rules :: "(Key \<times> CasbinRule) list"
  confs :: "(Key \<times> CasbinModelConf) list"
  scan :: "(Key \<times> CasbinRule) list \<Rightarrow> (Key \<times> CasbinRule) list"
  GetAll_fails :: "store_error option"
  Get_fails :: "store_error option"
  Delete_fails :: "Key \<Rightarrow> store_error option"
  DeleteMulti_fails :: "store_error option"
  Put_fails :: "store_error option"
  TxPut_fails :: "store_error option"
  Commit_fails :: "store_error option"

record Query =
  q_kind :: string
  q_namespace :: string
  q_filters :: "(string \<times> string) list"

definition NewQuery :: "string \<Rightarrow> Query" where
  "NewQuery k = \<lparr>q_kind = k, q_namespace = [], q_filters = []\<rparr>"

definition Query_Namespace :: "Query \<Rightarrow> string \<Rightarrow> Query" where
  "Query_Namespace q ns = q\<lparr>q_namespace := ns\<rparr>"

definition Query_Filter :: "Query \<Rightarrow> string \<Rightarrow> string \<Rightarrow> Query" where
  "Query_Filter q filterStr v = q\<lparr>q_filters := q_filters q @ [(filterStr, v)]\<rparr>"

definition property :: "CasbinRule \<Rightarrow> string \<Rightarrow> string option" where
  \<comment> \<open>the stored properties of a rule row, by their \<^verbatim>\<open>datastore:"..."\<close> tags\<close>
  "property r name =
     (if name = ''p_type'' then Some (PType r)
      else if name = ''v0'' then Some (V0 r)
      else if name = ''v1'' then Some (V1 r)
      else if name = ''v2'' then Some (V2 r)
      else if name = ''v3'' then Some (V3 r)
      else if name = ''v4'' then Some (V4 r)
      else if name = ''v5'' then Some (V5 r)
      else None)"

definition filter_holds :: "CasbinRule \<Rightarrow> string \<times> string \<Rightarrow> bool" where
  \<comment> \<open>a filter string is \<^verbatim>\<open>"<property> ="\<close>; only equality filters occur\<close>
  "filter_holds r f =
     (case f of (filterStr, v) \<Rightarrow>
        2 \<le> length filterStr
        \<and> drop (length filterStr - 2) filterStr = '' =''
        \<and> property r (take (length filterStr - 2) filterStr) = Some v)"

definition document_matches :: "Query \<Rightarrow> Key \<times> CasbinModelConf \<Rightarrow> bool" where
  \<comment> \<open>a model document has none of the properties of a rule row (its \<^verbatim>\<open>text\<close> is not
     indexed), so it is a result of a query exactly when the query has no filter\<close>
  "document_matches q e =
     (key_kind (fst e) = q_kind q \<and> key_namespace (fst e) = q_namespace q \<and> q_filters q = [])"

definition entity_matches :: "Query \<Rightarrow> Key \<times> CasbinRule \<Rightarrow> bool" where
  "entity_matches q e =
     (key_kind (fst e) = q_kind q \<and> key_namespace (fst e) = q_namespace q
      \<and> list_all (filter_holds (snd e)) (q_filters q))"

definition GetAll :: "Client \<Rightarrow> Query \<Rightarrow> (Key list \<times> CasbinRule list) \<times> error option" where
  \<comment> \<open>the destination is \<^verbatim>\<open>[]*CasbinRule\<close>: a model document among the results cannot be
     loaded into it and the call reports a field mismatch. What the call returns beside
     an error is never read by the code and is left empty here.\<close>
  "GetAll db q =
     (case GetAll_fails db of
        Some err \<Rightarrow> (([], []), Some (Datastore err))
      | None \<Rightarrow>
          if list_ex (document_matches q) (confs db)
          then (([], []), Some (Datastore ErrFieldMismatch))
          else
            (let es = scan db (filter (entity_matches q) (rules db))
             in ((map fst es, map snd es), None)))"

definition remove_keys :: "Key list \<Rightarrow> (Key \<times> 'a) list \<Rightarrow> (Key \<times> 'a) list" where
  "remove_keys ks es = filter (\<lambda>e. fst e \<notin> set ks) es"

definition Delete :: "Client \<Rightarrow> Key \<Rightarrow> Client \<times> error option" where
  "Delete db k =
     (case Delete_fails db k of
        Some err \<Rightarrow> (db, Some (Datastore err))
      | None \<Rightarrow> (db\<lparr>rules := remove_keys [k] (rules db), confs := remove_keys [k] (confs db)\<rparr>, None))"

definition DeleteMulti :: "Client \<Rightarrow> Key list \<Rightarrow> Client \<times> error option" where
  "DeleteMulti db ks =
     (case DeleteMulti_fails db of
        Some err \<Rightarrow> (db, Some (Datastore err))
      | None \<Rightarrow> (db\<lparr>rules := remove_keys ks (rules db), confs := remove_keys ks (confs db)\<rparr>, None))"

text \<open>
  Before any request is sent the client validates the entity it is given: a string
  property must be valid UTF-8 (Go's \<^verbatim>\<open>utf8.ValidString\<close>: no overlong form, no surrogate,
  nothing above U+10FFFF), and an indexed one, as every field of a rule row is, must not
  exceed 1500 bytes.
\<close>

definition continuation :: "nat \<Rightarrow> bool" where
  "continuation b = (128 \<le> b \<and> b \<le> 191)"

fun utf8_valid :: "nat list \<Rightarrow> bool" where
  "utf8_valid [] = True"
| "utf8_valid (b0 # bs) =
     (if b0 < 128 then utf8_valid bs
      else if 194 \<le> b0 \<and> b0 \<le> 223 then
        (case bs of
           b1 # r \<Rightarrow> continuation b1 \<and> utf8_valid r
         | _ \<Rightarrow> False)
      else if 224 \<le> b0 \<and> b0 \<le> 239 then
        (case bs of
           b1 # b2 # r \<Rightarrow>
             (if b0 = 224 then 160 \<le> b1 \<and> b1 \<le> 191
              else if b0 = 237 then 128 \<le> b1 \<and> b1 \<le> 159
              else continuation b1)
             \<and> continuation b2 \<and> utf8_valid r
         | _ \<Rightarrow> False)
      else if 240 \<le> b0 \<and> b0 \<le> 244 then
        (case bs of
           b1 # b2 # b3 # r \<Rightarrow>
             (if b0 = 240 then 144 \<le> b1 \<and> b1 \<le> 191
              else if b0 = 244 then 128 \<le> b1 \<and> b1 \<le> 143
              else continuation b1)
             \<and> continuation b2 \<and> continuation b3 \<and> utf8_valid r
         | _ \<Rightarrow> False)
      else False)"

definition text_ok :: "string \<Rightarrow> bool" where
  "text_ok s = (length s \<le> 1500 \<and> utf8_valid (map of_char s))"

definition row_ok :: "CasbinRule \<Rightarrow> bool" where
  "row_ok r = (text_ok (PType r) \<and> list_all text_ok (row_fields r))"

fun id_bound :: "Key list \<Rightarrow> nat" where
  "id_bound [] = 0"
| "id_bound (k # ks) = (case key_id k of IntID n \<Rightarrow> max n (id_bound ks) | _ \<Rightarrow> id_bound ks)"

definition complete_key :: "Client \<Rightarrow> Key \<Rightarrow> Key" where
  \<comment> \<open>an incomplete key receives a numeric identifier no rule entity of the store has\<close>
  "complete_key db k =
     (case key_id k of
        Incomplete \<Rightarrow> Key (key_kind k) (key_namespace k) (IntID (Suc (id_bound (map fst (rules db)))))
      | _ \<Rightarrow> k)"

definition store_rule :: "Client \<Rightarrow> Key \<Rightarrow> CasbinRule \<Rightarrow> Client" where
  "store_rule db k r =
     (if key_id k = Incomplete then db\<lparr>rules := rules db @ [(complete_key db k, r)]\<rparr>
      else db\<lparr>rules := AList.update k r (rules db)\<rparr>)"

definition store_conf :: "Client \<Rightarrow> Key \<Rightarrow> CasbinModelConf \<Rightarrow> Client" where
  "store_conf db k c = db\<lparr>confs := AList.update k c (confs db)\<rparr>"

definition Put :: "Client \<Rightarrow> Key \<Rightarrow> CasbinRule \<Rightarrow> Client \<times> Key \<times> error option" where
  "Put db k r =
     (if \<not> row_ok r then (db, k, Some InvalidEntity)
      else
        (case Put_fails db of
           Some err \<Rightarrow> (db, k, Some (Datastore err))
         | None \<Rightarrow> (store_rule db k r, complete_key db k, None)))"


text \<open>
  A transaction buffers its writes; \<open>RunInTransaction\<close> runs the closure, rolls back when the
  closure returns an error, and otherwise commits, which may fail and then applies nothing.
\<close>

record Transaction =
  rule_puts :: "(Key \<times> CasbinRule) list"
  conf_puts :: "(Key \<times> CasbinModelConf) list"

definition TxPut :: "Client \<Rightarrow> Transaction \<Rightarrow> Key \<Rightarrow> CasbinRule \<Rightarrow> Transaction \<times> error option" where
  "TxPut db tx k r =
     (if \<not> row_ok r then (tx, Some InvalidEntity)
      else
        (case TxPut_fails db of
           Some err \<Rightarrow> (tx, Some (Datastore err))
         | None \<Rightarrow> (tx\<lparr>rule_puts := rule_puts tx @ [(k, r)]\<rparr>, None)))"

definition TxPutConf :: "Client \<Rightarrow> Transaction \<Rightarrow> Key \<Rightarrow> CasbinModelConf \<Rightarrow> Transaction \<times> error option" where
  \<comment> \<open>\<^verbatim>\<open>tx.Put\<close> of the model document: a refusal of its text by the client is not told
     apart from the other failures of the call, all of them the flag \<open>TxPut_fails\<close>\<close>
  "TxPutConf db tx k c =
     (case TxPut_fails db of
        Some err \<Rightarrow> (tx, Some (Datastore err))
      | None \<Rightarrow> (tx\<lparr>conf_puts := conf_puts tx @ [(k, c)]\<rparr>, None))"

definition commit :: "Client \<Rightarrow> Transaction \<Rightarrow> Client" where
  "commit db tx =
     foldl (\<lambda>d (k, c). store_conf d k c)
       (foldl (\<lambda>d (k, r). store_rule d k r) db (rule_puts tx)) (conf_puts tx)"

definition RunInTransaction ::
  "Client \<Rightarrow> (Transaction \<Rightarrow> Transaction \<times> error option) \<Rightarrow> Client \<times> error option" where
  "RunInTransaction db f =
     (case f \<lparr>rule_puts = [], conf_puts = []\<rparr> of
        (tx, Some err) \<Rightarrow> (db, Some err)
      | (tx, None) \<Rightarrow>
          (case Commit_fails db of
             Some err \<Rightarrow> (db, Some (Datastore err))
           | None \<Rightarrow> (commit db tx, None)))"

section \<open>Row mapping (adapter.go)\<close>

definition savePolicyLine :: "string \<Rightarrow> string list \<Rightarrow> CasbinRule" where
  "savePolicyLine ptype rule =
     \<lparr>PType = ptype,
      V0 = (if length rule > 0 then rule ! 0 else []),
      V1 = (if length rule > 1 then rule ! 1 else []),
      V2 = (if length rule > 2 then rule ! 2 else []),
      V3 = (if length rule > 3 then rule ! 3 else []),
      V4 = (if length rule > 4 then rule ! 4 else []),
      V5 = (if length rule > 5 then rule ! 5 else [])\<rparr>"

definition line_tokens :: "CasbinRule \<Rightarrow> string list" where
  \<comment> \<open>the \<^verbatim>\<open>tokens\<close> slice of \<open>loadPolicyLine\<close> when control reaches \<^verbatim>\<open>LineEnd\<close>\<close>
  "line_tokens line =
     (if V0 line \<noteq> [] then
        (if V1 line \<noteq> [] then
           (if V2 line \<noteq> [] then
              (if V3 line \<noteq> [] then
                 (if V4 line \<noteq> [] then
                    (if V5 line \<noteq> [] then
                       [V0 line, V1 line, V2 line, V3 line, V4 line, V5 line]
                     else [V0 line, V1 line, V2 line, V3 line, V4 line])
                  else [V0 line, V1 line, V2 line, V3 line])
               else [V0 line, V1 line, V2 line])
            else [V0 line, V1 line])
         else [V0 line])
      else [])"

definition loadPolicyLine :: "CasbinRule \<Rightarrow> Model \<Rightarrow> panic + Model" where
  "loadPolicyLine line model =
     (let key = PType line in
      if length key < 1 then Inl SliceBoundsOutOfRange
      else
        (let sec = take 1 key;
             tokens = line_tokens line
         in case map_of (index_model model sec) key of
              None \<Rightarrow> Inl NilPointerDereference
            | Some ast \<Rightarrow>
                Inr (AList.update sec
                       (AList.update key (ast\<lparr>Policy := Policy ast @ [tokens]\<rparr>)
                          (index_model model sec))
                       model)))"

section \<open>Policy adapter (adapter.go)\<close>

fun load_lines :: "CasbinRule list \<Rightarrow> Model \<Rightarrow> panic + Model" where
  "load_lines [] model = Inr model"
| "load_lines (l # ls) model =
     (case loadPolicyLine l model of
        Inl p \<Rightarrow> Inl p
      | Inr model' \<Rightarrow> load_lines ls model')"

definition LoadPolicy :: "adapter \<Rightarrow> Client \<Rightarrow> Model \<Rightarrow> panic + (Model \<times> error option)" where
  "LoadPolicy a db model =
     (case GetAll db (Query_Namespace (NewQuery (kind a)) (namespace a)) of
        (_, Some err) \<Rightarrow> Inr (model, Some err)
      | ((keys, rs), None) \<Rightarrow>
          (case load_lines rs model of
             Inl p \<Rightarrow> Inl p
           | Inr model' \<Rightarrow> Inr (model', None)))"

fun delete_each :: "Client \<Rightarrow> Key list \<Rightarrow> Client" where
  \<comment> \<open>\<^verbatim>\<open>for _, k := range keys { a.db.Delete(ctx, k) }\<close>: the error of each delete is dropped\<close>
  "delete_each db [] = db"
| "delete_each db (k # ks) = delete_each (fst (Delete db k)) ks"

definition section_lines :: "Model \<Rightarrow> string \<Rightarrow> CasbinRule list" where
  \<comment> \<open>\<^verbatim>\<open>for ptype, ast := range model[sec] { for _, rule := range ast.Policy { ... } }\<close>\<close>
  "section_lines model sec =
     concat (map (\<lambda>(ptype, ast). map (savePolicyLine ptype) (Policy ast)) (index_model model sec))"

fun put_lines :: "adapter \<Rightarrow> Client \<Rightarrow> Transaction \<Rightarrow> CasbinRule list \<Rightarrow> Transaction \<times> error option" where
  "put_lines a db tx [] = (tx, None)"
| "put_lines a db tx (line # lines) =
     (let key = set_Namespace (IncompleteKey (kind a)) (namespace a)
      in case TxPut db tx key line of
           (tx', Some err) \<Rightarrow> (tx', Some err)
         | (tx', None) \<Rightarrow> put_lines a db tx' lines)"

definition SavePolicy :: "adapter \<Rightarrow> Client \<Rightarrow> Model \<Rightarrow> Client \<times> error option" where
  "SavePolicy a db model =
     (case GetAll db (Query_Namespace (NewQuery (kind a)) (namespace a)) of
        (_, Some err) \<Rightarrow> (db, Some err)
      | ((keys, rs), None) \<Rightarrow>
          (let db1 = delete_each db keys;
               lines = section_lines model ''p'' @ section_lines model ''g'';
               db2 = fst (RunInTransaction db1 (\<lambda>tx. put_lines a db1 tx lines))
           in (db2, None)))"

definition AddPolicy :: "adapter \<Rightarrow> Client \<Rightarrow> string \<Rightarrow> string \<Rightarrow> string list \<Rightarrow> Client \<times> error option" where
  "AddPolicy a db sec ptype rule =
     (let line = savePolicyLine ptype rule;
          key = set_Namespace (IncompleteKey (kind a)) (namespace a)
      in case Put db key line of (db', _, err) \<Rightarrow> (db', err))"

definition line_query :: "adapter \<Rightarrow> CasbinRule \<Rightarrow> Query" where
  \<comment> \<open>the query of \<open>RemovePolicy\<close>: six chained \<^verbatim>\<open>Filter\<close> calls\<close>
  "line_query a line =
     Query_Filter (Query_Filter (Query_Filter (Query_Filter (Query_Filter (Query_Filter
       (Query_Namespace (NewQuery (kind a)) (namespace a))
       ''p_type ='' (PType line))
       ''v0 ='' (V0 line))
       ''v1 ='' (V1 line))
       ''v2 ='' (V2 line))
       ''v3 ='' (V3 line))
       ''v4 ='' (V4 line)"

definition RemovePolicy :: "adapter \<Rightarrow> Client \<Rightarrow> string \<Rightarrow> string \<Rightarrow> string list \<Rightarrow> Client \<times> error option" where
  "RemovePolicy a db sec ptype rule =
     (let line = savePolicyLine ptype rule;
          query = line_query a line
      in case GetAll db query of
           (_, Some err) \<Rightarrow> (if err = Datastore ErrNoSuchEntity then (db, None) else (db, Some err))
         | ((keys, rs), None) \<Rightarrow> DeleteMulti db keys)"

definition index_values :: "string list \<Rightarrow> int \<Rightarrow> panic + string" where
  \<comment> \<open>\<^verbatim>\<open>fieldValues[i]\<close>, which panics out of range\<close>
  "index_values fieldValues i =
     (if 0 \<le> i \<and> i < int (length fieldValues) then Inr (fieldValues ! nat i)
      else Inl IndexOutOfRange)"

definition select_field ::
  "int \<Rightarrow> string \<Rightarrow> int \<Rightarrow> string list \<Rightarrow> (string \<times> string) list \<Rightarrow> panic + (string \<times> string) list" where
  \<comment> \<open>one of the six blocks \<^verbatim>\<open>if fieldIndex <= n && n < fieldIndex+len(fieldValues) { ... }\<close>\<close>
  "select_field n name fieldIndex fieldValues selector =
     (if fieldIndex \<le> n \<and> n < fieldIndex + int (length fieldValues) then
        (case index_values fieldValues (n - fieldIndex) of
           Inl p \<Rightarrow> Inl p
         | Inr v \<Rightarrow> if v \<noteq> [] then Inr (AList.update name v selector) else Inr selector)
      else Inr selector)"

definition build_selector :: "string \<Rightarrow> int \<Rightarrow> string list \<Rightarrow> panic + (string \<times> string) list" where
  "build_selector ptype fieldIndex fieldValues =
     (case select_field 0 ''v0'' fieldIndex fieldValues (AList.update ''p_type'' ptype []) of
        Inl p \<Rightarrow> Inl p
      | Inr s0 \<Rightarrow>
     (case select_field 1 ''v1'' fieldIndex fieldValues s0 of
        Inl p \<Rightarrow> Inl p
      | Inr s1 \<Rightarrow>
     (case select_field 2 ''v2'' fieldIndex fieldValues s1 of
        Inl p \<Rightarrow> Inl p
      | Inr s2 \<Rightarrow>
     (case select_field 3 ''v3'' fieldIndex fieldValues s2 of
        Inl p \<Rightarrow> Inl p
      | Inr s3 \<Rightarrow>
     (case select_field 4 ''v4'' fieldIndex fieldValues s3 of
        Inl p \<Rightarrow> Inl p
      | Inr s4 \<Rightarrow> select_field 5 ''v5'' fieldIndex fieldValues s4)))))"

definition selector_query :: "adapter \<Rightarrow> (string \<times> string) list \<Rightarrow> Query" where
  \<comment> \<open>\<^verbatim>\<open>for k, v := range selector { query = query.Filter(fmt.Sprintf("%s =", k), v) }\<close>\<close>
  "selector_query a selector =
     foldl (\<lambda>q (k, v). Query_Filter q (k @ '' ='') v)
       (Query_Namespace (NewQuery (kind a)) (namespace a)) selector"

definition RemoveFilteredPolicy ::
  "adapter \<Rightarrow> Client \<Rightarrow> string \<Rightarrow> string \<Rightarrow> int \<Rightarrow> string list \<Rightarrow> panic + (Client \<times> error option)" where
  "RemoveFilteredPolicy a db sec ptype fieldIndex fieldValues =
     (case build_selector ptype fieldIndex fieldValues of
        Inl p \<Rightarrow> Inl p
      | Inr selector \<Rightarrow>
          (case GetAll db (selector_query a selector) of
             (_, Some err) \<Rightarrow> (if err = Datastore ErrNoSuchEntity then Inr (db, None) else Inr (db, Some err))
           | ((keys, rs), None) \<Rightarrow> Inr (DeleteMulti db keys)))"

subsection \<open>The earlier adapter\<close>

text \<open>
  The repository also holds an earlier copy of the adapter, without kind and namespace,
  whose \<open>LoadPolicy\<close> and \<open>SavePolicy\<close> are those above at the kind \<open>casbin\<close> and the empty
  namespace, and whose three point mutators are stubs. It is not the adapter the
  statements below are about. Its \<open>AddPolicy\<close>:
\<close>

definition AddPolicy_earlier :: "Client \<Rightarrow> string \<Rightarrow> string \<Rightarrow> string list \<Rightarrow> Client \<times> error option" where
  \<comment> \<open>\<^verbatim>\<open>return errors.New("not implemented")\<close>\<close>
  "AddPolicy_earlier db sec ptype rule = (db, Some NotImplemented)"

section \<open>Model store\<close>

text \<open>
  \<^verbatim>\<open>ioutil.ReadFile\<close> and casbin's \<^verbatim>\<open>model.NewModelFromString\<close> are external; they are
  parameters of the two operations: the file system as a function from paths, the grammar
  as a parser into any type \<open>'m\<close> of parsed models.
\<close>

definition SaveModelWithConfig ::
  "(string \<Rightarrow> error + string) \<Rightarrow> (string \<Rightarrow> error + 'm) \<Rightarrow> Client \<Rightarrow> string \<Rightarrow> Config
     \<Rightarrow> Client \<times> error option" where
  "SaveModelWithConfig ReadFile NewModelFromString db path config =
     (case ReadFile path of
        Inl err \<Rightarrow> (db, Some err)
      | Inr text \<Rightarrow>
          (case NewModelFromString text of
             Inl err \<Rightarrow> (db, Some err)
           | Inr _ \<Rightarrow>
               (let knd = (if Kind config \<noteq> [] then Kind config else casbinKind);
                    ns = Namespace config
                in RunInTransaction db
                     (\<lambda>tx. let key = set_Namespace (NameKey knd ''conf'') ns;
                               m = \<lparr>Text = text\<rparr>
                           in TxPutConf db tx key m))))"


section \<open>Notions used in the statements\<close>

definition scan_permutes :: "Client \<Rightarrow> bool" where
  \<comment> \<open>a query returns each matching entity once, in an order of the store's choosing\<close>
  "scan_permutes db = (\<forall>es. mset (scan db es) = mset es)"

definition in_namespace :: "adapter \<Rightarrow> Key \<times> CasbinRule \<Rightarrow> bool" where
  \<comment> \<open>the entity lies in the adapter's kind and namespace\<close>
  "in_namespace a e = (key_kind (fst e) = kind a \<and> key_namespace (fst e) = namespace a)"

definition no_document :: "adapter \<Rightarrow> Client \<Rightarrow> bool" where
  \<comment> \<open>no model document is stored under the adapter's kind and namespace\<close>
  "no_document a db =
     (\<not> list_ex (\<lambda>e. key_kind (fst e) = kind a \<and> key_namespace (fst e) = namespace a) (confs db))"

definition reliable_store :: "(Key \<times> CasbinRule) list \<Rightarrow> Client" where
  \<comment> \<open>a store holding the given rule rows in which no call fails\<close>
  "reliable_store rs =
     \<lparr>rules = rs, confs = [], scan = rev, GetAll_fails = None, Get_fails = None,
      Delete_fails = (\<lambda>k. None), DeleteMulti_fails = None, Put_fails = None,
      TxPut_fails = None, Commit_fails = None\<rparr>"






definition constrained :: "int \<Rightarrow> string list \<Rightarrow> nat \<Rightarrow> bool" where
  \<comment> \<open>position \<open>n\<close> lies in the window of the supplied values and its value is non-empty\<close>
  "constrained fi fv n =
     (fi \<le> int n \<and> int n < fi + int (length fv) \<and> fv ! nat (int n - fi) \<noteq> [])"




definition loadable :: "Model \<Rightarrow> CasbinRule \<Rightarrow> bool" where
  \<comment> \<open>the row names a policy type, and the model has an assertion for it\<close>
  "loadable m r = (PType r \<noteq> [] \<and> policy_of m (take 1 (PType r)) (PType r) \<noteq> None)"

section \<open>Auxiliary facts\<close>

subsection \<open>Loading rows into a model\<close>

lemma policy_of_loadPolicyLine:
  "loadPolicyLine line m = Inr m' \<Longrightarrow>
   policy_of m' s k =
     (if s = take 1 (PType line) \<and> k = PType line
      then map_option (\<lambda>p. p @ [line_tokens line]) (policy_of m s k)
      else policy_of m s k)"
  by (auto simp: loadPolicyLine_def Let_def policy_of_def index_model_def update_conv'
      split: option.splits if_splits)

lemma loadPolicyLine_returns_iff:
  "(\<exists>m'. loadPolicyLine line m = Inr m') \<longleftrightarrow>
   PType line \<noteq> [] \<and> policy_of m (take 1 (PType line)) (PType line) \<noteq> None"
  by (auto simp: loadPolicyLine_def Let_def policy_of_def split: option.splits)

lemma loadable_step:
  "loadPolicyLine line m = Inr m' \<Longrightarrow> loadable m' r = loadable m r"
  by (auto simp: loadable_def policy_of_loadPolicyLine)

lemma load_lines_returns_iff:
  "(\<exists>m'. load_lines rs m = Inr m') \<longleftrightarrow> (\<forall>r \<in> set rs. loadable m r)"
proof (induction rs arbitrary: m)
  case Nil
  then show ?case by simp
next
  case (Cons r rs)
  show ?case
  proof (cases "loadPolicyLine r m")
    case (Inl p)
    moreover have "\<not> loadable m r"
      using loadPolicyLine_returns_iff [of r m] Inl by (simp add: loadable_def)
    ultimately show ?thesis by simp
  next
    case (Inr m1)
    moreover have "loadable m r"
      using loadPolicyLine_returns_iff [of r m] Inr by (simp add: loadable_def)
    ultimately show ?thesis
      using Cons.IH [of m1] by (simp add: loadable_step [OF Inr])
  qed
qed


subsection \<open>Queries\<close>

lemma GetAll_rows:
  "GetAll_fails db = None \<Longrightarrow> \<not> list_ex (document_matches q) (confs db) \<Longrightarrow>
   GetAll db q = ((map fst (scan db (filter (entity_matches q) (rules db))),
                   map snd (scan db (filter (entity_matches q) (rules db)))), None)"
  by (simp add: GetAll_def Let_def)

lemma GetAll_mismatch:
  "GetAll_fails db = None \<Longrightarrow> list_ex (document_matches q) (confs db) \<Longrightarrow>
   GetAll db q = (([], []), Some (Datastore ErrFieldMismatch))"
  by (simp add: GetAll_def)

lemma filtered_query_no_document:
  "q_filters q \<noteq> [] \<Longrightarrow> \<not> list_ex (document_matches q) cs"
  by (simp add: document_matches_def list_ex_iff)


lemma GetAll_error:
  "GetAll_fails db = Some e \<Longrightarrow> GetAll db q = (([], []), Some (Datastore e))"
  by (simp add: GetAll_def)


lemma filter_holds_eq:
  "filter_holds r (name @ '' ='', v) \<longleftrightarrow> property r name = Some v"
  by (simp add: filter_holds_def)

lemma entity_matches_line_query:
  "entity_matches (line_query a line) e \<longleftrightarrow>
     in_namespace a e \<and> PType (snd e) = PType line \<and> V0 (snd e) = V0 line
     \<and> V1 (snd e) = V1 line \<and> V2 (snd e) = V2 line \<and> V3 (snd e) = V3 line
     \<and> V4 (snd e) = V4 line"
proof -
  have f: "filter_holds r (''p_type ='', v) \<longleftrightarrow> PType r = v"
    "filter_holds r (''v0 ='', v) \<longleftrightarrow> V0 r = v"
    "filter_holds r (''v1 ='', v) \<longleftrightarrow> V1 r = v"
    "filter_holds r (''v2 ='', v) \<longleftrightarrow> V2 r = v"
    "filter_holds r (''v3 ='', v) \<longleftrightarrow> V3 r = v"
    "filter_holds r (''v4 ='', v) \<longleftrightarrow> V4 r = v" for r v
    using filter_holds_eq [of r "''p_type''" v] filter_holds_eq [of r "''v0''" v]
      filter_holds_eq [of r "''v1''" v] filter_holds_eq [of r "''v2''" v]
      filter_holds_eq [of r "''v3''" v] filter_holds_eq [of r "''v4''" v]
    by (simp_all add: property_def)
  show ?thesis
    by (simp add: entity_matches_def line_query_def Query_Filter_def Query_Namespace_def
        NewQuery_def in_namespace_def f)
qed

lemma scan_set:
  "scan_permutes db \<Longrightarrow> set (scan db es) = set es"
  unfolding scan_permutes_def by (metis set_mset_mset)

lemma scan_nil: "scan_permutes db \<Longrightarrow> scan db [] = []"
  using scan_set [of db "[]"] by simp

lemma remove_matching:
  assumes "distinct (map fst es)"
  shows "filter (\<lambda>e. fst e \<notin> fst ` {e' \<in> set es. P e'}) es = filter (\<lambda>e. \<not> P e) es"
proof (rule filter_cong [OF refl])
  fix e assume e: "e \<in> set es"
  from assms have inj: "inj_on fst (set es)" by (simp add: distinct_map)
  have "fst e \<in> fst ` {e' \<in> set es. P e'} \<longleftrightarrow> P e"
  proof
    assume "fst e \<in> fst ` {e' \<in> set es. P e'}"
    then obtain e' where "e' \<in> set es" "P e'" "fst e' = fst e" by auto
    with inj e have "e' = e" by (auto dest: inj_onD)
    with \<open>P e'\<close> show "P e" by simp
  next
    assume "P e" with e show "fst e \<in> fst ` {e' \<in> set es. P e'}" by auto
  qed
  then show "(fst e \<notin> fst ` {e' \<in> set es. P e'}) = (\<not> P e)" by simp
qed

lemma delete_query_result:
  assumes "GetAll_fails db = None" "DeleteMulti_fails db = None" "scan_permutes db"
    "distinct (map fst (rules db))" "q_filters q \<noteq> []"
  shows "(case GetAll db q of
           (_, Some err) \<Rightarrow> (if err = Datastore ErrNoSuchEntity then (db, None) else (db, Some err))
         | ((keys, rs), None) \<Rightarrow> DeleteMulti db keys)
     = (db\<lparr>rules := filter (\<lambda>e. \<not> entity_matches q e) (rules db),
           confs := remove_keys (map fst (scan db (filter (entity_matches q) (rules db)))) (confs db)\<rparr>, None)"
proof -
  have "set (map fst (scan db (filter (entity_matches q) (rules db))))
      = fst ` {e' \<in> set (rules db). entity_matches q e'}"
    using scan_set [OF assms(3)] by auto
  then have "remove_keys (map fst (scan db (filter (entity_matches q) (rules db)))) (rules db)
      = filter (\<lambda>e. \<not> entity_matches q e) (rules db)"
    unfolding remove_keys_def using remove_matching [OF assms(4)] by simp
  then show ?thesis
    using assms(1,2) filtered_query_no_document [OF assms(5)]
    by (simp add: GetAll_rows DeleteMulti_def)
qed

lemma line_query_filtered: "q_filters (line_query a line) \<noteq> []"
  by (simp add: line_query_def Query_Filter_def)

lemma DeleteMulti_nothing:
  "DeleteMulti db [] = (db, map_option Datastore (DeleteMulti_fails db))"
  by (cases "DeleteMulti_fails db") (simp_all add: DeleteMulti_def remove_keys_def)

subsection \<open>Keys and insertion\<close>

lemma id_bound_upper:
  "k \<in> set ks \<Longrightarrow> key_id k = IntID n \<Longrightarrow> n \<le> id_bound ks"
  by (induction ks) (auto split: KeyID.splits)

lemma fresh_key_new:
  "Key kd ns (IntID (Suc (id_bound ks))) \<notin> set ks"
  using id_bound_upper [of "Key kd ns (IntID (Suc (id_bound ks)))" ks "Suc (id_bound ks)"]
  by auto

lemma AddPolicy_result:
  "row_ok (savePolicyLine ptype rule) \<Longrightarrow> Put_fails db = None \<Longrightarrow>
   AddPolicy a db sec ptype rule =
     (db\<lparr>rules := rules db @ [(Key (kind a) (namespace a) (IntID (Suc (id_bound (map fst (rules db))))),
        savePolicyLine ptype rule)]\<rparr>, None)"
  by (simp add: AddPolicy_def Put_def store_rule_def complete_key_def set_Namespace_def
      IncompleteKey_def Let_def)

subsection \<open>The selector of a filtered removal\<close>

lemma select_field_result:
  "select_field n name fi fv s =
     Inr (if fi \<le> n \<and> n < fi + int (length fv) \<and> fv ! nat (n - fi) \<noteq> []
          then AList.update name (fv ! nat (n - fi)) s else s)"
  by (simp add: select_field_def index_values_def)

lemma selector_query_filters:
  "q_filters (foldl (\<lambda>q (k, v). Query_Filter q (k @ '' ='') v) q0 s)
     = q_filters q0 @ map (\<lambda>(k, v). (k @ '' ='', v)) s"
  by (induction s arbitrary: q0) (auto simp: Query_Filter_def)

lemma selector_query_scope:
  "q_kind (foldl (\<lambda>q (k, v). Query_Filter q (k @ '' ='') v) q0 s) = q_kind q0
   \<and> q_namespace (foldl (\<lambda>q (k, v). Query_Filter q (k @ '' ='') v) q0 s) = q_namespace q0"
  by (induction s arbitrary: q0) (auto simp: Query_Filter_def)

lemma entity_matches_selector_query:
  "entity_matches (selector_query a s) e \<longleftrightarrow>
     in_namespace a e \<and> list_all (\<lambda>(k, v). property (snd e) k = Some v) s"
proof -
  have "list_all (filter_holds (snd e)) (map (\<lambda>(k, v). (k @ '' ='', v)) s)
      = list_all (\<lambda>(k, v). property (snd e) k = Some v) s"
    by (induction s) (auto simp: filter_holds_eq)
  then show ?thesis
    by (simp add: entity_matches_def selector_query_def selector_query_filters
        selector_query_scope Query_Namespace_def NewQuery_def in_namespace_def)
qed

lemma list_all_update_fresh:
  "name \<notin> fst ` set s \<Longrightarrow>
   list_all P (AList.update name v s) \<longleftrightarrow> list_all P s \<and> P (name, v)"
  by (induction s) auto

lemma list_all_step:
  "name \<notin> fst ` set s \<Longrightarrow>
   list_all P (if c then AList.update name v s else s) \<longleftrightarrow> list_all P s \<and> (c \<longrightarrow> P (name, v))"
  by (simp add: list_all_update_fresh)

lemma keys_step:
  "fst ` set s \<subseteq> K \<Longrightarrow> fst ` set (if c then AList.update name v s else s) \<subseteq> insert name K"
  by (auto simp: dom_update)

lemma all_below_six:
  "(\<forall>n<6. Q (n::nat)) \<longleftrightarrow> Q 0 \<and> Q 1 \<and> Q 2 \<and> Q 3 \<and> Q 4 \<and> Q 5"
proof -
  have "n < 6 \<longleftrightarrow> n = 0 \<or> n = 1 \<or> n = 2 \<or> n = 3 \<or> n = 4 \<or> n = 5" for n :: nat
    by arith
  then show ?thesis by auto
qed

lemma build_selector_result:
  "\<exists>sel. build_selector ptype fi fv = Inr sel \<and> sel \<noteq> []
     \<and> (\<forall>r. list_all (\<lambda>(k, v). property r k = Some v) sel \<longleftrightarrow>
           PType r = ptype
           \<and> (\<forall>n<6. constrained fi fv n \<longrightarrow> row_fields r ! n = fv ! nat (int n - fi)))"
proof -
  define c where "c n = (fi \<le> n \<and> n < fi + int (length fv) \<and> fv ! nat (n - fi) \<noteq> [])" for n
  define s0 where "s0 = AList.update ''p_type'' ptype []"
  define s1 where "s1 = (if c 0 then AList.update ''v0'' (fv ! nat (0 - fi)) s0 else s0)"
  define s2 where "s2 = (if c 1 then AList.update ''v1'' (fv ! nat (1 - fi)) s1 else s1)"
  define s3 where "s3 = (if c 2 then AList.update ''v2'' (fv ! nat (2 - fi)) s2 else s2)"
  define s4 where "s4 = (if c 3 then AList.update ''v3'' (fv ! nat (3 - fi)) s3 else s3)"
  define s5 where "s5 = (if c 4 then AList.update ''v4'' (fv ! nat (4 - fi)) s4 else s4)"
  define s6 where "s6 = (if c 5 then AList.update ''v5'' (fv ! nat (5 - fi)) s5 else s5)"
  have b: "build_selector ptype fi fv = Inr s6"
    by (simp only: build_selector_def select_field_result sum.case s0_def s1_def s2_def s3_def
        s4_def s5_def s6_def c_def)
  have k0: "fst ` set s0 \<subseteq> {''p_type''}" by (simp add: s0_def)
  have k1: "fst ` set s1 \<subseteq> {''v0'', ''p_type''}" unfolding s1_def by (rule keys_step [OF k0])
  have k2: "fst ` set s2 \<subseteq> {''v1'', ''v0'', ''p_type''}" unfolding s2_def by (rule keys_step [OF k1])
  have k3: "fst ` set s3 \<subseteq> {''v2'', ''v1'', ''v0'', ''p_type''}"
    unfolding s3_def by (rule keys_step [OF k2])
  have k4: "fst ` set s4 \<subseteq> {''v3'', ''v2'', ''v1'', ''v0'', ''p_type''}"
    unfolding s4_def by (rule keys_step [OF k3])
  have k5: "fst ` set s5 \<subseteq> {''v4'', ''v3'', ''v2'', ''v1'', ''v0'', ''p_type''}"
    unfolding s5_def by (rule keys_step [OF k4])
  have f0: "''v0'' \<notin> fst ` set s0" using k0 by auto
  have f1: "''v1'' \<notin> fst ` set s1" using k1 by auto
  have f2: "''v2'' \<notin> fst ` set s2" using k2 by auto
  have f3: "''v3'' \<notin> fst ` set s3" using k3 by auto
  have f4: "''v4'' \<notin> fst ` set s4" using k4 by auto
  have f5: "''v5'' \<notin> fst ` set s5" using k5 by auto
  have m: "list_all (\<lambda>(k, v). property r k = Some v) s6 \<longleftrightarrow>
           PType r = ptype
           \<and> (\<forall>n<6. constrained fi fv n \<longrightarrow> row_fields r ! n = fv ! nat (int n - fi))" for r
  proof -
    let ?P = "\<lambda>(k, v). property r k = Some v"
    have p0: "list_all ?P s0 \<longleftrightarrow> PType r = ptype" by (simp add: s0_def property_def)
    have p1: "list_all ?P s1 \<longleftrightarrow> list_all ?P s0 \<and> (c 0 \<longrightarrow> V0 r = fv ! nat (0 - fi))"
      unfolding s1_def list_all_step [OF f0] by (simp add: property_def)
    have p2: "list_all ?P s2 \<longleftrightarrow> list_all ?P s1 \<and> (c 1 \<longrightarrow> V1 r = fv ! nat (1 - fi))"
      unfolding s2_def list_all_step [OF f1] by (simp add: property_def)
    have p3: "list_all ?P s3 \<longleftrightarrow> list_all ?P s2 \<and> (c 2 \<longrightarrow> V2 r = fv ! nat (2 - fi))"
      unfolding s3_def list_all_step [OF f2] by (simp add: property_def)
    have p4: "list_all ?P s4 \<longleftrightarrow> list_all ?P s3 \<and> (c 3 \<longrightarrow> V3 r = fv ! nat (3 - fi))"
      unfolding s4_def list_all_step [OF f3] by (simp add: property_def)
    have p5: "list_all ?P s5 \<longleftrightarrow> list_all ?P s4 \<and> (c 4 \<longrightarrow> V4 r = fv ! nat (4 - fi))"
      unfolding s5_def list_all_step [OF f4] by (simp add: property_def)
    have p6: "list_all ?P s6 \<longleftrightarrow> list_all ?P s5 \<and> (c 5 \<longrightarrow> V5 r = fv ! nat (5 - fi))"
      unfolding s6_def list_all_step [OF f5] by (simp add: property_def)
    have cc: "constrained fi fv 0 = c 0" "constrained fi fv 1 = c 1" "constrained fi fv 2 = c 2"
      "constrained fi fv 3 = c 3" "constrained fi fv 4 = c 4" "constrained fi fv 5 = c 5"
      by (simp_all add: constrained_def c_def)
    show ?thesis
      unfolding p6 p5 p4 p3 p2 p1 p0 all_below_six cc
      by (simp add: row_fields_def)
  qed
  have ne: "s6 \<noteq> []"
    by (simp add: s6_def s5_def s4_def s3_def s2_def s1_def s0_def)
  from b ne m show ?thesis by blast
qed

subsection \<open>The field mapper\<close>

lemma six_list:
  assumes "length (xs :: 'a list) = 6"
  shows "xs = [xs ! 0, xs ! 1, xs ! 2, xs ! 3, xs ! 4, xs ! 5]"
proof -
  from assms have "\<exists>a b c e f g. xs = [a, b, c, e, f, g]"
    by (auto simp: eval_nat_numeral length_Suc_conv)
  then obtain a b c e f g where "xs = [a, b, c, e, f, g]" by blast
  then show ?thesis by simp
qed

lemma take6_pad:
  "take 6 (rule @ replicate 6 (d::'a)) =
     [if length rule > 0 then rule ! 0 else d,
      if length rule > 1 then rule ! 1 else d,
      if length rule > 2 then rule ! 2 else d,
      if length rule > 3 then rule ! 3 else d,
      if length rule > 4 then rule ! 4 else d,
      if length rule > 5 then rule ! 5 else d]"
proof -
  let ?xs = "take 6 (rule @ replicate 6 d)"
  have n: "?xs ! i = (if i < length rule then rule ! i else d)" if "i < 6" for i
    using that by (simp add: nth_append)
  have "length ?xs = 6" by simp
  from six_list [OF this] show ?thesis
    by (simp only: n [of 0] n [of 1] n [of 2] n [of 3] n [of 4] n [of 5])
qed

lemma row_fields_savePolicyLine:
  "row_fields (savePolicyLine ptype rule) = take 6 (rule @ replicate 6 [])"
  unfolding take6_pad by (simp add: row_fields_def savePolicyLine_def)

lemma PType_savePolicyLine: "PType (savePolicyLine ptype rule) = ptype"
  by (simp add: savePolicyLine_def)

lemma text_ok_empty: "text_ok []"
  by (simp add: text_ok_def)


lemma row_ok_savePolicyLine_iff:
  "row_ok (savePolicyLine ptype rule) \<longleftrightarrow> text_ok ptype \<and> list_all text_ok (take 6 rule)"
  by (auto simp: row_ok_def row_fields_savePolicyLine PType_savePolicyLine list_all_iff
      text_ok_empty)

lemma selector_query_filtered: "sel \<noteq> [] \<Longrightarrow> q_filters (selector_query a sel) \<noteq> []"
  by (simp add: selector_query_def selector_query_filters)

subsection \<open>The bulk replace\<close>



















subsection \<open>A model document in the adapter's kind and namespace\<close>

text \<open>
  \<open>SaveModel\<close> writes its document under the configured kind and namespace, by default
  the kind and namespace of the default adapter. The namespace scans of \<open>LoadPolicy\<close> and
  \<open>SavePolicy\<close> then find the document among the rows and both return the field mismatch.
\<close>

lemma document_in_namespace:
  "\<not> no_document a db \<Longrightarrow>
   list_ex (document_matches (Query_Namespace (NewQuery (kind a)) (namespace a))) (confs db)"
  by (simp add: no_document_def document_matches_def list_ex_iff Query_Namespace_def NewQuery_def)


lemma LoadPolicy_document:
  "GetAll_fails db = None \<Longrightarrow> \<not> no_document a db \<Longrightarrow>
   LoadPolicy a db model = Inr (model, Some (Datastore ErrFieldMismatch))"
  by (simp add: LoadPolicy_def GetAll_mismatch [OF _ document_in_namespace])

lemma SaveModel_document:
  assumes "snd (SaveModelWithConfig ReadFile NewModelFromString db path config) = None"
    and "kind a = (if Kind config \<noteq> [] then Kind config else casbinKind)"
    and "namespace a = Namespace config"
  shows "\<not> no_document a (fst (SaveModelWithConfig ReadFile NewModelFromString db path config))"
proof -
  define key where "key = set_Namespace (NameKey (kind a) ''conf'') (namespace a)"
  have k: "key_kind key = kind a" "key_namespace key = namespace a"
    by (simp_all add: key_def set_Namespace_def NameKey_def)
  from assms obtain body where
    "fst (SaveModelWithConfig ReadFile NewModelFromString db path config)
      = store_conf db key \<lparr>Text = body\<rparr>"
    by (auto simp: SaveModelWithConfig_def RunInTransaction_def TxPutConf_def commit_def Let_def
        key_def split: sum.splits option.splits if_splits)
  moreover have "key \<in> set (map fst (confs (store_conf db key \<lparr>Text = body\<rparr>)))"
    by (simp add: store_conf_def update_keys)
  ultimately show ?thesis
    using k by (auto simp: no_document_def list_ex_iff)
qed


subsection \<open>Rows of a well-formed model\<close>














section \<open>Row mapping: truncation at the first empty field\<close>

text \<open>
  C2. The tuple rebuilt from a stored row is the fields \<open>v0..v5\<close> in order up to, and not
  including, the first empty one; that field and every later field is dropped, also when
  non-empty fields follow. A row with \<open>v0 = "a"\<close>, \<open>v1 = "b"\<close>, \<open>v2 = ""\<close>, \<open>v3 = "x"\<close> gives
  exactly \<open>["a", "b"]\<close>, whatever \<open>p_type\<close>, \<open>v4\<close> and \<open>v5\<close> hold, and that tuple is what
  \<open>loadPolicyLine\<close> appends to the policy of the row's type.
\<close>

theorem loadPolicyLine_truncation:
  "line_tokens line = takeWhile (\<lambda>v. v \<noteq> []) [V0 line, V1 line, V2 line, V3 line, V4 line, V5 line]
   \<and> line_tokens \<lparr>PType = pt, V0 = ''a'', V1 = ''b'', V2 = [], V3 = ''x'', V4 = v4, V5 = v5\<rparr>
       = [''a'', ''b'']
   \<and> (case loadPolicyLine line model of
        Inl p \<Rightarrow> True
      | Inr model' \<Rightarrow>
          policy_of model' (take 1 (PType line)) (PType line)
            = map_option (\<lambda>pol. pol @ [takeWhile (\<lambda>v. v \<noteq> [])
                  [V0 line, V1 line, V2 line, V3 line, V4 line, V5 line]])
                (policy_of model (take 1 (PType line)) (PType line)))"
proof -
  have tok: "line_tokens l = takeWhile (\<lambda>v. v \<noteq> []) [V0 l, V1 l, V2 l, V3 l, V4 l, V5 l]" for l
    by (simp add: line_tokens_def)
  have ex: "line_tokens \<lparr>PType = pt, V0 = ''a'', V1 = ''b'', V2 = [], V3 = ''x'', V4 = v4, V5 = v5\<rparr>
       = [''a'', ''b'']"
    by (simp add: line_tokens_def)
  have ld: "(case loadPolicyLine line model of
        Inl p \<Rightarrow> True
      | Inr model' \<Rightarrow>
          policy_of model' (take 1 (PType line)) (PType line)
            = map_option (\<lambda>pol. pol @ [takeWhile (\<lambda>v. v \<noteq> [])
                  [V0 line, V1 line, V2 line, V3 line, V4 line, V5 line]])
                (policy_of model (take 1 (PType line)) (PType line)))"
    unfolding tok [symmetric]
    by (simp add: loadPolicyLine_def Let_def policy_of_def index_model_def update_conv'
        split: option.splits)
  from tok ex ld show ?thesis by blast
qed

theorem loadPolicyLine_truncation_witness:
  "loadPolicyLine \<lparr>PType = ''p'', V0 = ''a'', V1 = ''b'', V2 = [], V3 = ''x'', V4 = [], V5 = ''y''\<rparr>
      [(''p'', [(''p'', \<lparr>Policy = []\<rparr>)])]
     = Inr [(''p'', [(''p'', \<lparr>Policy = [[''a'', ''b'']]\<rparr>)])]
   \<and> policy_of [(''p'', [(''p'', \<lparr>Policy = [[''a'', ''b'']]\<rparr>)])] ''p'' ''p''
     = Some [[''a'', ''b'']]"
  using loadPolicyLine_truncation
    [of "\<lparr>PType = ''p'', V0 = ''a'', V1 = ''b'', V2 = [], V3 = ''x'', V4 = [], V5 = ''y''\<rparr>"
        "''p''" "[]" "[]" "[(''p'', [(''p'', \<lparr>Policy = []\<rparr>)])]"]
  by (simp add: loadPolicyLine_def line_tokens_def index_model_def policy_of_def Let_def)

section \<open>Loading needs the row's policy type in the model\<close>

text \<open>
  C10. Rebuilding a tuple from a row is defined only when the row's \<open>p_type\<close> is non-empty
  and the model handed to \<open>LoadPolicy\<close> already has an assertion at the section derived from
  it (its first character) and at the full \<open>p_type\<close> key. \<open>loadPolicyLine\<close> checks neither:
  an empty \<open>p_type\<close> makes \<^verbatim>\<open>key[:1]\<close> panic, an absent assertion makes the append through
  the nil pointer panic, and in every other case it returns. \<open>LoadPolicy\<close> panics exactly
  when the scan succeeds and some fetched row violates the precondition.
\<close>

theorem loadPolicyLine_precondition:
  "(loadPolicyLine line model = Inl SliceBoundsOutOfRange \<longleftrightarrow> PType line = [])
   \<and> (loadPolicyLine line model = Inl NilPointerDereference \<longleftrightarrow>
        PType line \<noteq> [] \<and> policy_of model (take 1 (PType line)) (PType line) = None)
   \<and> ((\<exists>model'. loadPolicyLine line model = Inr model') \<longleftrightarrow>
        PType line \<noteq> [] \<and> policy_of model (take 1 (PType line)) (PType line) \<noteq> None)
   \<and> ((\<exists>p. LoadPolicy a db model = Inl p) \<longleftrightarrow>
        GetAll_fails db = None
        \<and> (\<exists>r \<in> set (snd (fst (GetAll db (Query_Namespace (NewQuery (kind a)) (namespace a))))).
              PType r = [] \<or> policy_of model (take 1 (PType r)) (PType r) = None))"
proof -
  have a1: "loadPolicyLine line model = Inl SliceBoundsOutOfRange \<longleftrightarrow> PType line = []"
    by (auto simp: loadPolicyLine_def Let_def split: option.splits)
  have a2: "loadPolicyLine line model = Inl NilPointerDereference \<longleftrightarrow>
        PType line \<noteq> [] \<and> policy_of model (take 1 (PType line)) (PType line) = None"
    by (auto simp: loadPolicyLine_def Let_def policy_of_def split: option.splits)
  have a4: "(\<exists>p. LoadPolicy a db model = Inl p) \<longleftrightarrow>
        GetAll_fails db = None
        \<and> (\<exists>r \<in> set (snd (fst (GetAll db (Query_Namespace (NewQuery (kind a)) (namespace a))))).
              PType r = [] \<or> policy_of model (take 1 (PType r)) (PType r) = None)"
  proof (cases "GetAll_fails db")
    case (Some e)
    then show ?thesis by (simp add: LoadPolicy_def GetAll_error)
  next
    case None
    show ?thesis
    proof (cases "list_ex (document_matches (Query_Namespace (NewQuery (kind a)) (namespace a)))
        (confs db)")
      case True
      then show ?thesis
        using None by (simp add: LoadPolicy_def GetAll_mismatch)
    next
      case False
      define rs where "rs = map snd (scan db (filter (entity_matches
          (Query_Namespace (NewQuery (kind a)) (namespace a))) (rules db)))"
      have "(\<exists>p. load_lines rs model = Inl p) \<longleftrightarrow> \<not> (\<exists>m'. load_lines rs model = Inr m')"
        by (cases "load_lines rs model") auto
      also have "\<dots> \<longleftrightarrow> (\<exists>r \<in> set rs. \<not> loadable model r)"
        by (simp add: load_lines_returns_iff)
      finally have "(\<exists>p. load_lines rs model = Inl p) \<longleftrightarrow>
          (\<exists>r \<in> set rs. PType r = [] \<or> policy_of model (take 1 (PType r)) (PType r) = None)"
        by (simp add: loadable_def)
      moreover have "(\<exists>p. LoadPolicy a db model = Inl p) \<longleftrightarrow> (\<exists>p. load_lines rs model = Inl p)"
        using None False by (auto simp: LoadPolicy_def GetAll_rows rs_def split: sum.splits)
      ultimately show ?thesis using None False by (simp add: GetAll_rows rs_def)
    qed
  qed
  from a1 a2 loadPolicyLine_returns_iff [of line model] a4 show ?thesis by blast
qed

theorem loadPolicyLine_precondition_witness:
  "loadPolicyLine \<lparr>PType = [], V0 = ''a'', V1 = [], V2 = [], V3 = [], V4 = [], V5 = []\<rparr>
      [(''p'', [(''p'', \<lparr>Policy = []\<rparr>)])] = Inl SliceBoundsOutOfRange
   \<and> loadPolicyLine \<lparr>PType = ''p2'', V0 = ''a'', V1 = [], V2 = [], V3 = [], V4 = [], V5 = []\<rparr>
      [(''p'', [(''p'', \<lparr>Policy = []\<rparr>)])] = Inl NilPointerDereference
   \<and> (\<exists>model'. loadPolicyLine \<lparr>PType = ''p'', V0 = ''a'', V1 = [], V2 = [], V3 = [], V4 = [], V5 = []\<rparr>
      [(''p'', [(''p'', \<lparr>Policy = []\<rparr>)])] = Inr model')
   \<and> (\<exists>p. LoadPolicy \<lparr>kind = ''casbin'', namespace = []\<rparr>
          (reliable_store [(Key ''casbin'' [] (IntID 7),
             \<lparr>PType = ''g'', V0 = ''alice'', V1 = ''admin'', V2 = [], V3 = [], V4 = [], V5 = []\<rparr>)])
          [(''p'', [(''p'', \<lparr>Policy = []\<rparr>)])] = Inl p)"
proof -
  let ?m = "[(''p'', [(''p'', \<lparr>Policy = []\<rparr>)])]"
  let ?a = "\<lparr>kind = ''casbin'', namespace = []\<rparr>"
  let ?g = "\<lparr>PType = ''g'', V0 = ''alice'', V1 = ''admin'', V2 = [], V3 = [], V4 = [], V5 = []\<rparr>"
  let ?db = "reliable_store [(Key ''casbin'' [] (IntID 7), ?g)]"
  have p: "policy_of ?m ''p'' ''p'' = Some []" "policy_of ?m ''p'' ''p2'' = None"
    "policy_of ?m ''g'' ''g'' = None"
    by (simp_all add: policy_of_def index_model_def)
  have g: "snd (fst (GetAll ?db (Query_Namespace (NewQuery (kind ?a)) (namespace ?a)))) = [?g]"
    by (simp add: GetAll_def reliable_store_def NewQuery_def Query_Namespace_def entity_matches_def)
  have f: "GetAll_fails ?db = None"
    by (simp add: reliable_store_def)
  note T1 = loadPolicyLine_precondition
        [of "\<lparr>PType = [], V0 = ''a'', V1 = [], V2 = [], V3 = [], V4 = [], V5 = []\<rparr>" ?m ?a ?db]
  note T2 = loadPolicyLine_precondition
        [of "\<lparr>PType = ''p2'', V0 = ''a'', V1 = [], V2 = [], V3 = [], V4 = [], V5 = []\<rparr>" ?m ?a ?db]
  note T3 = loadPolicyLine_precondition
        [of "\<lparr>PType = ''p'', V0 = ''a'', V1 = [], V2 = [], V3 = [], V4 = [], V5 = []\<rparr>" ?m ?a ?db]
  have c1: "loadPolicyLine \<lparr>PType = [], V0 = ''a'', V1 = [], V2 = [], V3 = [], V4 = [], V5 = []\<rparr> ?m
      = Inl SliceBoundsOutOfRange"
    using T1 by simp
  have c2: "loadPolicyLine \<lparr>PType = ''p2'', V0 = ''a'', V1 = [], V2 = [], V3 = [], V4 = [], V5 = []\<rparr> ?m
      = Inl NilPointerDereference"
    using T2 p(2) by simp
  have c3: "\<exists>model'. loadPolicyLine
      \<lparr>PType = ''p'', V0 = ''a'', V1 = [], V2 = [], V3 = [], V4 = [], V5 = []\<rparr> ?m = Inr model'"
    using T3 p(1) by simp
  have "(\<exists>p. LoadPolicy ?a ?db ?m = Inl p) \<longleftrightarrow>
        GetAll_fails ?db = None
        \<and> (\<exists>r \<in> set (snd (fst (GetAll ?db (Query_Namespace (NewQuery (kind ?a)) (namespace ?a))))).
              PType r = [] \<or> policy_of ?m (take 1 (PType r)) (PType r) = None)"
    using T3 by blast
  then have c4: "\<exists>p. LoadPolicy ?a ?db ?m = Inl p"
    unfolding g f using p(3) by simp
  from c1 c2 c3 c4 show ?thesis by blast
qed

section \<open>Saving and loading the model text\<close>

text \<open>
  C5. \<open>SaveModel\<close> validates the text against the model grammar before any store write:
  when the text that was read does not parse, the parser's error is returned and the
  store is left exactly as it was. More generally, whenever \<open>SaveModel\<close> returns an error
  the store is the one it was given.
\<close>

theorem SaveModel_rejects_malformed:
  "(ReadFile path = Inr text \<and> NewModelFromString text = Inl err \<longrightarrow>
      SaveModelWithConfig ReadFile NewModelFromString db path config = (db, Some err))
   \<and> (snd (SaveModelWithConfig ReadFile NewModelFromString db path config) \<noteq> None \<longrightarrow>
      fst (SaveModelWithConfig ReadFile NewModelFromString db path config) = db)"
proof (intro conjI impI)
  assume "ReadFile path = Inr text \<and> NewModelFromString text = Inl err"
  then show "SaveModelWithConfig ReadFile NewModelFromString db path config = (db, Some err)"
    by (simp add: SaveModelWithConfig_def)
next
  assume "snd (SaveModelWithConfig ReadFile NewModelFromString db path config) \<noteq> None"
  then show "fst (SaveModelWithConfig ReadFile NewModelFromString db path config) = db"
    by (auto simp: SaveModelWithConfig_def RunInTransaction_def TxPutConf_def Let_def
        split: sum.splits option.splits)
qed

theorem SaveModel_rejects_malformed_witness:
  "SaveModelWithConfig (\<lambda>path. Inr ''[request_definition'')
      (\<lambda>text. if text = ''[request_definition'' then Inl (ValidationError 1) else Inr text)
      (reliable_store []) ''model.conf'' \<lparr>Kind = [], Namespace = []\<rparr>
    = (reliable_store [], Some (ValidationError 1))"
  using SaveModel_rejects_malformed
    [of "\<lambda>path. Inr ''[request_definition''" "''model.conf''" "''[request_definition''"
        "\<lambda>text. if text = ''[request_definition'' then Inl (ValidationError 1) else Inr text"
        "ValidationError 1" "reliable_store []" "\<lparr>Kind = [], Namespace = []\<rparr>"]
  by simp



section \<open>SavePolicy and the errors of its transaction\<close>

lemma SavePolicy_error:
  "snd (SavePolicy a db model) = snd (GetAll db (Query_Namespace (NewQuery (kind a)) (namespace a)))"
  by (cases "GetAll db (Query_Namespace (NewQuery (kind a)) (namespace a))")
    (auto simp: SavePolicy_def Let_def split: option.splits)

text \<open>
  C1. \<open>SavePolicy\<close> should return the first error of its delete scan or of its insert
  transaction. It returns the scan's error, but the result of \<^verbatim>\<open>RunInTransaction\<close> is
  dropped: in a store whose commit fails, the transaction reports the failure, nothing
  is written, and \<open>SavePolicy\<close> still returns no error.
\<close>

theorem SavePolicy_swallows_commit_failure:
  "snd (RunInTransaction ((reliable_store [])\<lparr>Commit_fails := Some (ErrOther 1)\<rparr>)
      (\<lambda>tx. put_lines \<lparr>kind = ''casbin'', namespace = []\<rparr>
          ((reliable_store [])\<lparr>Commit_fails := Some (ErrOther 1)\<rparr>) tx
          (section_lines [(''p'', [(''p'', \<lparr>Policy = [[''alice'', ''data1'', ''read'']]\<rparr>)])] ''p''
           @ section_lines [(''p'', [(''p'', \<lparr>Policy = [[''alice'', ''data1'', ''read'']]\<rparr>)])] ''g'')))
     = Some (Datastore (ErrOther 1))
   \<and> SavePolicy \<lparr>kind = ''casbin'', namespace = []\<rparr>
      ((reliable_store [])\<lparr>Commit_fails := Some (ErrOther 1)\<rparr>)
      [(''p'', [(''p'', \<lparr>Policy = [[''alice'', ''data1'', ''read'']]\<rparr>)])]
     = ((reliable_store [])\<lparr>Commit_fails := Some (ErrOther 1)\<rparr>, None)"
proof -
  have ok: "row_ok (savePolicyLine ''p'' [''alice'', ''data1'', ''read''])"
    by (simp add: row_ok_savePolicyLine_iff text_ok_def)
  show ?thesis
    by (simp add: SavePolicy_def GetAll_def reliable_store_def RunInTransaction_def
        section_lines_def index_model_def TxPut_def Let_def ok)
qed

section \<open>Point mutations\<close>

lemma AddPolicy_earlier_stub:
  "AddPolicy_earlier db sec ptype rule = (db, Some NotImplemented)"
  by (simp add: AddPolicy_earlier_def)

text \<open>
  C9. \<open>AddPolicy\<close> performs a real insertion. It maps the rule to a row with the truncating
  field mapper (the policy type and the first six elements, padded with empty strings) and
  puts it under an incomplete key: the error it returns is the client's own, the
  validation error for a row the client refuses and otherwise the error of the put, never
  a fixed "not implemented". When the put succeeds the store gains exactly that one row
  under a key the store generated, in the adapter's kind and namespace. Nothing is
  deduplicated: adding the same rule twice leaves two more rows for it.
\<close>

theorem AddPolicy_inserts_without_dedup:
  "snd (AddPolicy a db sec ptype rule)
     = (if text_ok ptype \<and> list_all text_ok (take 6 rule)
        then map_option Datastore (Put_fails db) else Some InvalidEntity)
   \<and> snd (AddPolicy a db sec ptype rule) \<noteq> Some NotImplemented
   \<and> PType (savePolicyLine ptype rule) = ptype
   \<and> row_fields (savePolicyLine ptype rule) = take 6 (rule @ replicate 6 [])
   \<and> (text_ok ptype \<and> list_all text_ok (take 6 rule) \<and> Put_fails db = None \<longrightarrow>
        (\<exists>k. k \<notin> fst ` set (rules db) \<and> in_namespace a (k, savePolicyLine ptype rule)
            \<and> fst (AddPolicy a db sec ptype rule)
                = db\<lparr>rules := rules db @ [(k, savePolicyLine ptype rule)]\<rparr>)
        \<and> count (mset (map snd (rules (fst (AddPolicy a (fst (AddPolicy a db sec ptype rule)) sec ptype rule)))))
              (savePolicyLine ptype rule)
            = count (mset (map snd (rules db))) (savePolicyLine ptype rule) + 2)"
proof -
  have e: "snd (AddPolicy a db sec ptype rule)
     = (if text_ok ptype \<and> list_all text_ok (take 6 rule)
        then map_option Datastore (Put_fails db) else Some InvalidEntity)"
    unfolding row_ok_savePolicyLine_iff [symmetric]
    by (cases "Put_fails db") (simp_all add: AddPolicy_def Put_def Let_def)
  then have n: "snd (AddPolicy a db sec ptype rule) \<noteq> Some NotImplemented"
    by (cases "Put_fails db") (simp_all split: if_splits)
  have i: "(\<exists>k. k \<notin> fst ` set (rules db) \<and> in_namespace a (k, savePolicyLine ptype rule)
            \<and> fst (AddPolicy a db sec ptype rule)
                = db\<lparr>rules := rules db @ [(k, savePolicyLine ptype rule)]\<rparr>)
        \<and> count (mset (map snd (rules (fst (AddPolicy a (fst (AddPolicy a db sec ptype rule)) sec ptype rule)))))
              (savePolicyLine ptype rule)
            = count (mset (map snd (rules db))) (savePolicyLine ptype rule) + 2"
    if h: "text_ok ptype \<and> list_all text_ok (take 6 rule) \<and> Put_fails db = None"
  proof -
    from h have ok: "Put_fails db = None" and valid: "row_ok (savePolicyLine ptype rule)"
      by (simp_all add: row_ok_savePolicyLine_iff)
    define k where "k = Key (kind a) (namespace a) (IntID (Suc (id_bound (map fst (rules db)))))"
    define db1 where "db1 = db\<lparr>rules := rules db @ [(k, savePolicyLine ptype rule)]\<rparr>"
    have first: "AddPolicy a db sec ptype rule = (db1, None)"
      unfolding db1_def k_def by (rule AddPolicy_result [OF valid ok])
    have "k \<notin> set (map fst (rules db))"
      unfolding k_def by (rule fresh_key_new)
    moreover have "in_namespace a (k, savePolicyLine ptype rule)"
      by (simp add: in_namespace_def k_def)
    moreover have "Put_fails db1 = None"
      using ok by (simp add: db1_def)
    then have "rules (fst (AddPolicy a db1 sec ptype rule))
        = rules db1 @ [(Key (kind a) (namespace a) (IntID (Suc (id_bound (map fst (rules db1))))),
            savePolicyLine ptype rule)]"
      using valid by (simp add: AddPolicy_result)
    ultimately show ?thesis
      using first by (auto simp: db1_def)
  qed
  show ?thesis
    apply (intro conjI)
        apply (rule e)
       apply (rule n)
      apply (rule PType_savePolicyLine)
     apply (rule row_fields_savePolicyLine)
    apply (rule impI)
    apply (rule i)
    apply assumption
    done
qed

theorem AddPolicy_inserts_without_dedup_witness:
  "snd (AddPolicy \<lparr>kind = ''casbin'', namespace = []\<rparr> (reliable_store []) ''p'' ''p''
      [''alice'', ''data1'', ''read'']) = None
   \<and> map snd (rules (fst (AddPolicy \<lparr>kind = ''casbin'', namespace = []\<rparr> (reliable_store [])
      ''p'' ''p'' [''alice'', ''data1'', ''read''])))
     = [\<lparr>PType = ''p'', V0 = ''alice'', V1 = ''data1'', V2 = ''read'', V3 = [], V4 = [], V5 = []\<rparr>]
   \<and> count (mset (map snd (rules (fst (AddPolicy \<lparr>kind = ''casbin'', namespace = []\<rparr>
          (fst (AddPolicy \<lparr>kind = ''casbin'', namespace = []\<rparr> (reliable_store []) ''p'' ''p''
              [''alice'', ''data1'', ''read'']))
          ''p'' ''p'' [''alice'', ''data1'', ''read''])))))
        \<lparr>PType = ''p'', V0 = ''alice'', V1 = ''data1'', V2 = ''read'', V3 = [], V4 = [], V5 = []\<rparr> = 2"
proof -
  let ?a = "\<lparr>kind = ''casbin'', namespace = []\<rparr>"
  let ?rule = "[''alice'', ''data1'', ''read'']"
  let ?row = "\<lparr>PType = ''p'', V0 = ''alice'', V1 = ''data1'', V2 = ''read'', V3 = [], V4 = [], V5 = []\<rparr>"
  note T = AddPolicy_inserts_without_dedup [of ?a "reliable_store []" "''p''" "''p''" ?rule]
  have v: "text_ok ''p'' \<and> list_all text_ok (take 6 ?rule) \<and> Put_fails (reliable_store []) = None"
    by (simp add: text_ok_def reliable_store_def)
  have row: "savePolicyLine ''p'' ?rule = ?row"
    by (simp add: savePolicyLine_def)
  from T v obtain k where
    f: "fst (AddPolicy ?a (reliable_store []) ''p'' ''p'' ?rule)
      = (reliable_store [])\<lparr>rules := rules (reliable_store []) @ [(k, savePolicyLine ''p'' ?rule)]\<rparr>"
    and c: "count (mset (map snd (rules (fst (AddPolicy ?a
          (fst (AddPolicy ?a (reliable_store []) ''p'' ''p'' ?rule)) ''p'' ''p'' ?rule)))))
        (savePolicyLine ''p'' ?rule)
        = count (mset (map snd (rules (reliable_store [])))) (savePolicyLine ''p'' ?rule) + 2"
    and e: "snd (AddPolicy ?a (reliable_store []) ''p'' ''p'' ?rule) = None"
    by auto
  have "map snd (rules (fst (AddPolicy ?a (reliable_store []) ''p'' ''p'' ?rule))) = [?row]"
    unfolding f row by (simp add: reliable_store_def)
  moreover from c have "count (mset (map snd (rules (fst (AddPolicy ?a
          (fst (AddPolicy ?a (reliable_store []) ''p'' ''p'' ?rule)) ''p'' ''p'' ?rule))))) ?row = 2"
    unfolding row by (simp add: reliable_store_def)
  ultimately show ?thesis using e by simp
qed

text \<open>
  C4. The filter of \<open>RemovePolicy\<close> is equality on \<open>p_type\<close> and on each of \<open>v0..v4\<close> of the
  mapped row (the policy type and the first six elements of the rule, padded with empty
  strings), within the adapter's kind and namespace, and never on \<open>v5\<close>. When the scan
  and the delete succeed, exactly the matching rows are deleted. When no row matches,
  nothing is deleted, but \<open>RemovePolicy\<close> still calls \<^verbatim>\<open>DeleteMulti\<close>, with no key, and
  returns what that call returns: success only if the call succeeds.
\<close>

theorem RemovePolicy_filter:
  "(entity_matches (line_query a (savePolicyLine ptype rule)) e \<longleftrightarrow>
      in_namespace a e \<and> PType (snd e) = ptype
      \<and> V0 (snd e) = V0 (savePolicyLine ptype rule) \<and> V1 (snd e) = V1 (savePolicyLine ptype rule)
      \<and> V2 (snd e) = V2 (savePolicyLine ptype rule) \<and> V3 (snd e) = V3 (savePolicyLine ptype rule)
      \<and> V4 (snd e) = V4 (savePolicyLine ptype rule))
   \<and> row_fields (savePolicyLine ptype rule) = take 6 (rule @ replicate 6 [])
   \<and> entity_matches (line_query a (savePolicyLine ptype rule)) (k, r\<lparr>V5 := x\<rparr>)
       = entity_matches (line_query a (savePolicyLine ptype rule)) (k, r)
   \<and> (GetAll_fails db = None \<and> DeleteMulti_fails db = None \<and> scan_permutes db
        \<and> distinct (map fst (rules db)) \<longrightarrow>
        snd (RemovePolicy a db sec ptype rule) = None
        \<and> rules (fst (RemovePolicy a db sec ptype rule))
            = filter (\<lambda>e. \<not> entity_matches (line_query a (savePolicyLine ptype rule)) e) (rules db))
   \<and> (GetAll_fails db = None \<and> scan_permutes db
        \<and> (\<forall>e \<in> set (rules db). \<not> entity_matches (line_query a (savePolicyLine ptype rule)) e)
        \<longrightarrow> RemovePolicy a db sec ptype rule = (db, map_option Datastore (DeleteMulti_fails db)))"
proof -
  let ?q = "line_query a (savePolicyLine ptype rule)"
  have a1: "entity_matches ?q e \<longleftrightarrow>
      in_namespace a e \<and> PType (snd e) = ptype
      \<and> V0 (snd e) = V0 (savePolicyLine ptype rule) \<and> V1 (snd e) = V1 (savePolicyLine ptype rule)
      \<and> V2 (snd e) = V2 (savePolicyLine ptype rule) \<and> V3 (snd e) = V3 (savePolicyLine ptype rule)
      \<and> V4 (snd e) = V4 (savePolicyLine ptype rule)"
    unfolding entity_matches_line_query by (simp add: savePolicyLine_def)
  have a2: "entity_matches ?q (k, r\<lparr>V5 := x\<rparr>) = entity_matches ?q (k, r)"
    unfolding entity_matches_line_query by (simp add: in_namespace_def)
  have a3: "snd (RemovePolicy a db sec ptype rule) = None
        \<and> rules (fst (RemovePolicy a db sec ptype rule))
            = filter (\<lambda>e. \<not> entity_matches ?q e) (rules db)"
    if h: "GetAll_fails db = None" "DeleteMulti_fails db = None" "scan_permutes db"
      "distinct (map fst (rules db))"
  proof -
    have "RemovePolicy a db sec ptype rule
        = (db\<lparr>rules := filter (\<lambda>e. \<not> entity_matches ?q e) (rules db),
              confs := remove_keys (map fst (scan db (filter (entity_matches ?q) (rules db)))) (confs db)\<rparr>, None)"
      unfolding RemovePolicy_def Let_def
      by (rule delete_query_result [OF h line_query_filtered])
    then show ?thesis by simp
  qed
  have a4: "RemovePolicy a db sec ptype rule = (db, map_option Datastore (DeleteMulti_fails db))"
    if g: "GetAll_fails db = None" and s: "scan_permutes db"
      and none: "\<forall>e \<in> set (rules db). \<not> entity_matches ?q e"
  proof -
    from none have "filter (entity_matches ?q) (rules db) = []"
      by (simp add: filter_empty_conv)
    then show ?thesis
      using g s filtered_query_no_document [OF line_query_filtered, of a "savePolicyLine ptype rule"]
      by (simp add: RemovePolicy_def Let_def GetAll_rows scan_nil DeleteMulti_nothing)
  qed
  show ?thesis
    apply (intro conjI)
        apply (rule a1)
       apply (rule row_fields_savePolicyLine)
      apply (rule a2)
     apply (rule impI)
     apply (rule a3)
        apply simp_all
    apply (rule impI)
    apply (rule a4)
      apply simp_all
    done
qed

theorem RemovePolicy_filter_witness:
  "snd (RemovePolicy \<lparr>kind = ''casbin'', namespace = []\<rparr>
      (reliable_store
        [(Key ''casbin'' [] (IntID 7),
          \<lparr>PType = ''p'', V0 = ''alice'', V1 = ''data1'', V2 = ''read'', V3 = [], V4 = [], V5 = []\<rparr>),
         (Key ''casbin'' [] (IntID 8),
          \<lparr>PType = ''p'', V0 = ''bob'', V1 = ''data2'', V2 = ''write'', V3 = [], V4 = [], V5 = []\<rparr>)])
      ''p'' ''p'' [''alice'', ''data1'', ''read'']) = None
   \<and> rules (fst (RemovePolicy \<lparr>kind = ''casbin'', namespace = []\<rparr>
      (reliable_store
        [(Key ''casbin'' [] (IntID 7),
          \<lparr>PType = ''p'', V0 = ''alice'', V1 = ''data1'', V2 = ''read'', V3 = [], V4 = [], V5 = []\<rparr>),
         (Key ''casbin'' [] (IntID 8),
          \<lparr>PType = ''p'', V0 = ''bob'', V1 = ''data2'', V2 = ''write'', V3 = [], V4 = [], V5 = []\<rparr>)])
      ''p'' ''p'' [''alice'', ''data1'', ''read'']))
     = [(Key ''casbin'' [] (IntID 8),
          \<lparr>PType = ''p'', V0 = ''bob'', V1 = ''data2'', V2 = ''write'', V3 = [], V4 = [], V5 = []\<rparr>)]
   \<and> RemovePolicy \<lparr>kind = ''casbin'', namespace = []\<rparr>
      (reliable_store
        [(Key ''casbin'' [] (IntID 8),
          \<lparr>PType = ''p'', V0 = ''bob'', V1 = ''data2'', V2 = ''write'', V3 = [], V4 = [], V5 = []\<rparr>)])
      ''p'' ''p'' [''alice'', ''data1'', ''read'']
     = (reliable_store
        [(Key ''casbin'' [] (IntID 8),
          \<lparr>PType = ''p'', V0 = ''bob'', V1 = ''data2'', V2 = ''write'', V3 = [], V4 = [], V5 = []\<rparr>)],
        None)"
proof -
  let ?a = "\<lparr>kind = ''casbin'', namespace = []\<rparr>"
  let ?alice = "(Key ''casbin'' [] (IntID 7),
      \<lparr>PType = ''p'', V0 = ''alice'', V1 = ''data1'', V2 = ''read'', V3 = [], V4 = [], V5 = []\<rparr>)"
  let ?bob = "(Key ''casbin'' [] (IntID 8),
      \<lparr>PType = ''p'', V0 = ''bob'', V1 = ''data2'', V2 = ''write'', V3 = [], V4 = [], V5 = []\<rparr>)"
  let ?q = "line_query ?a (savePolicyLine ''p'' [''alice'', ''data1'', ''read''])"
  have ok: "GetAll_fails (reliable_store rs) = None" "DeleteMulti_fails (reliable_store rs) = None"
    "scan_permutes (reliable_store rs)" for rs
    by (simp_all add: reliable_store_def scan_permutes_def)
  have r: "rules (reliable_store rs) = rs" for rs
    by (simp add: reliable_store_def)
  have ma: "entity_matches ?q ?alice"
    using RemovePolicy_filter [THEN conjunct1, of ?a "''p''" "[''alice'', ''data1'', ''read'']" ?alice]
    by (simp add: in_namespace_def savePolicyLine_def)
  have mb: "\<not> entity_matches ?q ?bob"
    using RemovePolicy_filter [THEN conjunct1, of ?a "''p''" "[''alice'', ''data1'', ''read'']" ?bob]
    by (simp add: in_namespace_def savePolicyLine_def)
  have d: "distinct (map fst [?alice, ?bob])"
    by simp
  note T1 = RemovePolicy_filter [where a = ?a and ptype = "''p''"
      and rule = "[''alice'', ''data1'', ''read'']"
      and db = "reliable_store [?alice, ?bob]" and sec = "''p''",
      THEN conjunct2, THEN conjunct2, THEN conjunct2, THEN conjunct1]
  note T2 = RemovePolicy_filter [where a = ?a and ptype = "''p''"
      and rule = "[''alice'', ''data1'', ''read'']"
      and db = "reliable_store [?bob]" and sec = "''p''",
      THEN conjunct2, THEN conjunct2, THEN conjunct2, THEN conjunct2]
  have c1: "snd (RemovePolicy ?a (reliable_store [?alice, ?bob]) ''p'' ''p''
        [''alice'', ''data1'', ''read'']) = None
      \<and> rules (fst (RemovePolicy ?a (reliable_store [?alice, ?bob]) ''p'' ''p''
        [''alice'', ''data1'', ''read''])) = [?bob]"
    using T1 ok [of "[?alice, ?bob]"] d ma mb by (simp add: r)
  have c2: "RemovePolicy ?a (reliable_store [?bob]) ''p'' ''p'' [''alice'', ''data1'', ''read'']
      = (reliable_store [?bob], None)"
    using T2 ok [of "[?bob]"] mb by (simp add: r)
  from c1 c2 show ?thesis by simp
qed

text \<open>
  As stated, C4 promises success whenever no row matches. The store below holds one row
  that the rule does not match and refuses the delete call: nothing is deleted and
  \<open>RemovePolicy\<close> returns the refusal.
\<close>

theorem RemovePolicy_no_match_returns_delete_error:
  "filter (entity_matches (line_query \<lparr>kind = ''casbin'', namespace = []\<rparr>
        (savePolicyLine ''p'' [''alice'', ''data1'', ''read''])))
      (rules ((reliable_store
        [(Key ''casbin'' [] (IntID 8),
          \<lparr>PType = ''p'', V0 = ''bob'', V1 = ''data2'', V2 = ''write'', V3 = [], V4 = [], V5 = []\<rparr>)])
        \<lparr>DeleteMulti_fails := Some (ErrOther 14)\<rparr>)) = []
   \<and> RemovePolicy \<lparr>kind = ''casbin'', namespace = []\<rparr>
      ((reliable_store
        [(Key ''casbin'' [] (IntID 8),
          \<lparr>PType = ''p'', V0 = ''bob'', V1 = ''data2'', V2 = ''write'', V3 = [], V4 = [], V5 = []\<rparr>)])
        \<lparr>DeleteMulti_fails := Some (ErrOther 14)\<rparr>)
      ''p'' ''p'' [''alice'', ''data1'', ''read'']
     = ((reliable_store
        [(Key ''casbin'' [] (IntID 8),
          \<lparr>PType = ''p'', V0 = ''bob'', V1 = ''data2'', V2 = ''write'', V3 = [], V4 = [], V5 = []\<rparr>)])
        \<lparr>DeleteMulti_fails := Some (ErrOther 14)\<rparr>,
        Some (Datastore (ErrOther 14)))"
proof -
  let ?a = "\<lparr>kind = ''casbin'', namespace = []\<rparr>"
  let ?bob = "(Key ''casbin'' [] (IntID 8),
      \<lparr>PType = ''p'', V0 = ''bob'', V1 = ''data2'', V2 = ''write'', V3 = [], V4 = [], V5 = []\<rparr>)"
  let ?db = "(reliable_store [?bob])\<lparr>DeleteMulti_fails := Some (ErrOther 14)\<rparr>"
  let ?q = "line_query ?a (savePolicyLine ''p'' [''alice'', ''data1'', ''read''])"
  have mb: "\<not> entity_matches ?q ?bob"
    by (simp add: entity_matches_line_query in_namespace_def savePolicyLine_def)
  then have f: "filter (entity_matches ?q) (rules ?db) = []"
    by (simp add: reliable_store_def)
  have g: "GetAll ?db ?q = (([], []), None)"
    using f filtered_query_no_document [OF line_query_filtered, of ?a
        "savePolicyLine ''p'' [''alice'', ''data1'', ''read'']" "confs ?db"]
    by (simp add: GetAll_def Let_def reliable_store_def)
  have "RemovePolicy ?a ?db ''p'' ''p'' [''alice'', ''data1'', ''read''] = (?db, Some (Datastore (ErrOther 14)))"
    by (simp add: RemovePolicy_def Let_def g DeleteMulti_def)
  with f show ?thesis by simp
qed

text \<open>
  C3. The filter of \<open>RemoveFilteredPolicy\<close> is equality on \<open>p_type\<close> plus equality on exactly
  those fields \<open>vN\<close> with \<open>fieldIndex \<le> N < fieldIndex + len(fieldValues)\<close> whose supplied
  value is non-empty; an empty supplied value constrains nothing. Building it never
  panics, and when the scan and the delete succeed exactly the matching rows are deleted.
  \<open>RemoveFilteredPolicy("p", "p", 1, "", "write")\<close> matches every row of the namespace with
  \<open>p_type = "p"\<close> and \<open>v2 = "write"\<close>, whatever \<open>v1\<close> is.
\<close>

theorem RemoveFilteredPolicy_filter:
  "(\<exists>sel. build_selector ptype fieldIndex fieldValues = Inr sel
      \<and> (\<forall>e. entity_matches (selector_query a sel) e \<longleftrightarrow>
             in_namespace a e \<and> PType (snd e) = ptype
             \<and> (\<forall>n<6. constrained fieldIndex fieldValues n \<longrightarrow>
                   row_fields (snd e) ! n = fieldValues ! nat (int n - fieldIndex)))
      \<and> (GetAll_fails db = None \<and> DeleteMulti_fails db = None \<and> scan_permutes db
           \<and> distinct (map fst (rules db)) \<longrightarrow>
           (\<exists>db'. RemoveFilteredPolicy a db sec ptype fieldIndex fieldValues = Inr (db', None)
              \<and> rules db' = filter (\<lambda>e. \<not> entity_matches (selector_query a sel) e) (rules db))))
   \<and> build_selector ''p'' 1 ['''', ''write''] = Inr [(''p_type'', ''p''), (''v2'', ''write'')]
   \<and> (entity_matches (selector_query a [(''p_type'', ''p''), (''v2'', ''write'')]) e' \<longleftrightarrow>
        in_namespace a e' \<and> PType (snd e') = ''p'' \<and> V2 (snd e') = ''write'')"
proof -
  from build_selector_result [of ptype fieldIndex fieldValues]
  obtain sel where sel: "build_selector ptype fieldIndex fieldValues = Inr sel"
    and ne: "sel \<noteq> []"
    and m: "\<And>r. list_all (\<lambda>(k, v). property r k = Some v) sel \<longleftrightarrow>
           PType r = ptype
           \<and> (\<forall>n<6. constrained fieldIndex fieldValues n \<longrightarrow>
                 row_fields r ! n = fieldValues ! nat (int n - fieldIndex))"
    by blast
  have a1: "\<forall>e. entity_matches (selector_query a sel) e \<longleftrightarrow>
             in_namespace a e \<and> PType (snd e) = ptype
             \<and> (\<forall>n<6. constrained fieldIndex fieldValues n \<longrightarrow>
                   row_fields (snd e) ! n = fieldValues ! nat (int n - fieldIndex))"
    by (simp add: entity_matches_selector_query m)
  have a2: "\<exists>db'. RemoveFilteredPolicy a db sec ptype fieldIndex fieldValues = Inr (db', None)
              \<and> rules db' = filter (\<lambda>e. \<not> entity_matches (selector_query a sel) e) (rules db)"
    if h: "GetAll_fails db = None \<and> DeleteMulti_fails db = None \<and> scan_permutes db
           \<and> distinct (map fst (rules db))"
  proof -
    from h have h': "GetAll_fails db = None" "DeleteMulti_fails db = None" "scan_permutes db"
      "distinct (map fst (rules db))" by simp_all
    note f = selector_query_filtered [OF ne, of a]
    have g: "GetAll db (selector_query a sel)
        = ((map fst (scan db (filter (entity_matches (selector_query a sel)) (rules db))),
            map snd (scan db (filter (entity_matches (selector_query a sel)) (rules db)))), None)"
      by (rule GetAll_rows [OF h'(1) filtered_query_no_document [OF f]])
    have "RemoveFilteredPolicy a db sec ptype fieldIndex fieldValues
        = Inr (db\<lparr>rules := filter (\<lambda>e. \<not> entity_matches (selector_query a sel) e) (rules db),
              confs := remove_keys (map fst (scan db (filter (entity_matches (selector_query a sel))
                  (rules db)))) (confs db)\<rparr>, None)"
      using delete_query_result [OF h' f]
      by (simp add: RemoveFilteredPolicy_def sel g)
    then show ?thesis by simp
  qed
  have a3: "build_selector ''p'' 1 ['''', ''write''] = Inr [(''p_type'', ''p''), (''v2'', ''write'')]"
    by (simp add: build_selector_def select_field_def index_values_def)
  have a4: "entity_matches (selector_query a [(''p_type'', ''p''), (''v2'', ''write'')]) e' \<longleftrightarrow>
        in_namespace a e' \<and> PType (snd e') = ''p'' \<and> V2 (snd e') = ''write''"
    by (simp add: entity_matches_selector_query property_def)
  from sel a1 a2 have "\<exists>sel. build_selector ptype fieldIndex fieldValues = Inr sel
      \<and> (\<forall>e. entity_matches (selector_query a sel) e \<longleftrightarrow>
             in_namespace a e \<and> PType (snd e) = ptype
             \<and> (\<forall>n<6. constrained fieldIndex fieldValues n \<longrightarrow>
                   row_fields (snd e) ! n = fieldValues ! nat (int n - fieldIndex)))
      \<and> (GetAll_fails db = None \<and> DeleteMulti_fails db = None \<and> scan_permutes db
           \<and> distinct (map fst (rules db)) \<longrightarrow>
           (\<exists>db'. RemoveFilteredPolicy a db sec ptype fieldIndex fieldValues = Inr (db', None)
              \<and> rules db' = filter (\<lambda>e. \<not> entity_matches (selector_query a sel) e) (rules db)))"
    by blast
  with a3 a4 show ?thesis by (intro conjI)
qed

theorem RemoveFilteredPolicy_filter_witness:
  "RemoveFilteredPolicy \<lparr>kind = ''casbin'', namespace = []\<rparr>
      (reliable_store
        [(Key ''casbin'' [] (IntID 7), savePolicyLine ''p'' [''alice'', ''data1'', ''write'']),
         (Key ''casbin'' [] (IntID 8), savePolicyLine ''p'' [''bob'', ''data2'', ''write'']),
         (Key ''casbin'' [] (IntID 9), savePolicyLine ''p'' [''carol'', ''data3'', ''read''])])
      ''p'' ''p'' 1 ['''', ''write'']
    = Inr ((reliable_store
        [(Key ''casbin'' [] (IntID 9), savePolicyLine ''p'' [''carol'', ''data3'', ''read''])]), None)"
proof -
  let ?a = "\<lparr>kind = ''casbin'', namespace = []\<rparr>"
  let ?alice = "(Key ''casbin'' [] (IntID 7), savePolicyLine ''p'' [''alice'', ''data1'', ''write''])"
  let ?bob = "(Key ''casbin'' [] (IntID 8), savePolicyLine ''p'' [''bob'', ''data2'', ''write''])"
  let ?carol = "(Key ''casbin'' [] (IntID 9), savePolicyLine ''p'' [''carol'', ''data3'', ''read''])"
  let ?db = "reliable_store [?alice, ?bob, ?carol]"
  let ?sel = "[(''p_type'', ''p''), (''v2'', ''write'')]"
  have ok: "GetAll_fails ?db = None \<and> DeleteMulti_fails ?db = None \<and> scan_permutes ?db
      \<and> distinct (map fst (rules ?db))"
    by (simp add: reliable_store_def scan_permutes_def)
  note T = RemoveFilteredPolicy_filter [of "''p''" 1 "['''', ''write'']" ?a ?db "''p''"]
  have m: "entity_matches (selector_query ?a ?sel) ?alice"
    "entity_matches (selector_query ?a ?sel) ?bob"
    "\<not> entity_matches (selector_query ?a ?sel) ?carol"
    by (simp_all add: RemoveFilteredPolicy_filter [THEN conjunct2, THEN conjunct2]
        in_namespace_def savePolicyLine_def)
  from T obtain sel where s1: "build_selector ''p'' 1 ['''', ''write''] = Inr sel"
    and s2: "GetAll_fails ?db = None \<and> DeleteMulti_fails ?db = None \<and> scan_permutes ?db
      \<and> distinct (map fst (rules ?db)) \<longrightarrow>
      (\<exists>db'. RemoveFilteredPolicy ?a ?db ''p'' ''p'' 1 ['''', ''write''] = Inr (db', None)
         \<and> rules db' = filter (\<lambda>e. \<not> entity_matches (selector_query ?a sel) e) (rules ?db))"
    by blast
  from T have "build_selector ''p'' 1 ['''', ''write''] = Inr ?sel" by blast
  with s1 have sel: "sel = ?sel" by simp
  from s2 ok obtain db' where
    res: "RemoveFilteredPolicy ?a ?db ''p'' ''p'' 1 ['''', ''write''] = Inr (db', None)"
    and rs: "rules db' = filter (\<lambda>e. \<not> entity_matches (selector_query ?a ?sel) e) (rules ?db)"
    unfolding sel by blast
  have "rules db' = [?carol]"
    unfolding rs using m by (simp add: reliable_store_def)
  moreover have "db' = ?db\<lparr>rules := rules db'\<rparr>"
    using res ok
    by (auto simp: RemoveFilteredPolicy_def GetAll_def Let_def DeleteMulti_def reliable_store_def
        remove_keys_def split: sum.splits if_splits)
  ultimately have "db' = reliable_store [?carol]"
    by (simp add: reliable_store_def)
  with res show ?thesis by simp
qed

section \<open>Bulk replace and reload\<close>







end
